theory Spec2Isabelle
  imports Main "HOL-Library.Word"
begin

section \<open>Errors\<close>

text \<open>
  Modelled from the spec: the \<open>errors\<close> package (\<open>util/errors\<close>, later
  \<open>corestoreio/errors\<close>) is imported by both binlog files but is not among the sources.
  The error kinds are those of the spec's error taxonomy (section 7). A Go \<open>error\<close> value
  is \<open>error option\<close>: \<open>None\<close> is \<open>nil\<close>. \<open>errors.Is\<close> tests the kind of an error;
  \<open>errors.Wrap\<close> and \<open>errors.WithStack\<close> annotate an error and leave its kind as it is
  (sections 4.3 and 4.4: an \<open>Interrupted\<close> outcome propagates through the aggregate, which
  the source returns through \<open>WithStack\<close> and \<open>Wrap\<close>); both map \<open>nil\<close> to \<open>nil\<close>.
\<close>

datatype Kind = Interrupted | Other | DataUnavailable | PersistFailure

datatype error = Error (kind: Kind) (message: string)

definition errors_Is :: "error \<Rightarrow> Kind \<Rightarrow> bool" where
  "errors_Is err k = (kind err = k)"

fun errors_Wrap :: "error option \<Rightarrow> string \<Rightarrow> error option" where
  "errors_Wrap None msg = None"
| "errors_Wrap (Some err) msg = Some (Error (kind err) (msg @ '': '' @ message err))"

fun errors_WithStack :: "error option \<Rightarrow> error option" where
  "errors_WithStack None = None"
| "errors_WithStack (Some err) = Some err"


section \<open>Position store (masterInfo)\<close>

subsection \<open>Time\<close>

text \<open>
  A \<open>time.Time\<close> is a number of nanoseconds since the zero time (the value of a
  \<open>lastSaveTime\<close> never written). \<open>Time.Sub\<close> yields a \<open>Duration\<close>, a signed 64-bit
  count of nanoseconds, and saturates at the ends of that range.
\<close>

type_synonym Time = int
type_synonym Duration = int

definition minDuration :: Duration where
  "minDuration = - (2 ^ 63)"

definition maxDuration :: Duration where
  "maxDuration = 2 ^ 63 - 1"

definition Second :: Duration where
  "Second = 1000000000"

definition Time_Sub :: "Time \<Rightarrow> Time \<Rightarrow> Duration" where
  "Time_Sub t u =
     (let d = t - u
      in if d < minDuration then minDuration
         else if maxDuration < d then maxDuration
         else d)"

subsection \<open>The upstream collaborator\<close>

text \<open>
  \<open>mysql.Executer\<close> and its \<open>Result\<close> belong to the external log-reading client. An
  executer maps a query to an error or a result; a result answers \<open>GetString\<close> and
  \<open>GetUint\<close> (an unsigned 64-bit integer) for a row and a column, each of which can fail.
\<close>

record Result =
  GetString :: "int \<Rightarrow> int \<Rightarrow> error + string"
  GetUint :: "int \<Rightarrow> int \<Rightarrow> error + 64 word"

type_synonym Executer = "string \<Rightarrow> error + Result"

subsection \<open>masterInfo\<close>

text \<open>
  The struct's mutex is left out: each method holds it for its whole body, so a method is
  one atomic step on the struct.
\<close>

record masterInfo =
  Name :: string
  Position :: "32 word"
  lastSaveTime :: Time

text \<open>
  \<open>loadMasterInfo\<close> returns the pair \<open>(*masterInfo, error)\<close> of the source. The new
  struct's \<open>lastSaveTime\<close> is the zero time. \<open>uint32(pos)\<close> is the conversion \<open>ucast\<close>.
\<close>

definition loadMasterInfo :: "Executer \<Rightarrow> masterInfo option \<times> error option" where
  "loadMasterInfo exec =
     (case exec ''SHOW MASTER STATUS'' of
        Inl err \<Rightarrow>
          (None, errors_Wrap (Some err) ''[mybinlogsync] Failed to execute SHOW MASTER STATUS'')
      | Inr res \<Rightarrow>
          (case GetString res 0 0 of
             Inl err \<Rightarrow>
               (None, errors_Wrap (Some err)
                        ''[mybinlogsync] Failed to fetch first row with 1st column'')
           | Inr name \<Rightarrow>
               (case GetUint res 0 1 of
                  Inl err \<Rightarrow>
                    (None, errors_Wrap (Some err)
                             ''[mybinlogsync] Failed to fetch first row with 2nd column'')
                | Inr pos \<Rightarrow>
                    (Some \<lparr>Name = name, Position = ucast pos, lastSaveTime = 0\<rparr>, None))))"

text \<open>
  The methods run in a world that holds the struct and the durable storage: \<open>durable\<close> is
  the record \<open>{name, position}\<close> last written there, if any. The clock reading
  \<open>time.Now()\<close> of \<open>Save\<close> is the argument \<open>n\<close>. The body of \<open>Save\<close> that would encode
  the struct and write it is commented out in the source (\<open>Save todo: implement saving\<close>),
  so \<open>Save\<close> passes the storage on as it is.
\<close>

record World =
  info :: masterInfo
  durable :: "(string \<times> 32 word) option"

definition Save :: "bool \<Rightarrow> Time \<Rightarrow> World \<Rightarrow> error option \<times> World" where
  "Save force n w =
     (if \<not> force \<and> Time_Sub n (lastSaveTime (info w)) < Second
      then (None, w)
      else (None, w\<lparr>info := (info w)\<lparr>lastSaveTime := n\<rparr>\<rparr>))"

definition Update :: "string \<Rightarrow> 32 word \<Rightarrow> World \<Rightarrow> World" where
  "Update name pos w = w\<lparr>info := (info w)\<lparr>Name := name, Position := pos\<rparr>\<rparr>"

text \<open>\<open>Close\<close> calls \<open>m.Save(true)\<close> and drops the error it returns.\<close>

definition Close :: "Time \<Rightarrow> World \<Rightarrow> World" where
  "Close n w = snd (Save True n w)"


section \<open>Handler registry and dispatch (Canal)\<close>

subsection \<open>Handlers, tables and the registry\<close>

text \<open>
  A \<open>context.Context\<close> is the background context or one derived from a parent with a
  cancel function, as \<open>errgroup.WithContext\<close> derives one. Of \<open>ddl.Table\<close> the dispatch
  reads the name only. The row values (\<open>interface{}\<close>) are of any type \<open>'v\<close>. A handler is
  what its three interface methods return.
\<close>

datatype Context = Background | WithCancel Context

record Table =
  Name :: string

record 'v RowsEventHandler =
  Do :: "Context \<Rightarrow> string \<Rightarrow> Table \<Rightarrow> 'v list list \<Rightarrow> error option"
  Complete :: "Context \<Rightarrow> error option"
  String :: string

text \<open>
  Of the \<open>Canal\<close> struct the handler code reads and writes the map \<open>rsHandlers\<close>; \<open>None\<close>
  is the \<open>nil\<close> map of a fresh \<open>Canal\<close>. The read/write lock \<open>rsMu\<close> is held by each
  function for its whole body and is left out, as are the log calls.
\<close>

record 'v Canal =
  rsHandlers :: "(string \<rightharpoonup> 'v RowsEventHandler list) option"

text \<open>
  Indexing a Go map, \<open>hs, ok := c.rsHandlers[k]\<close>: a key that is absent, and any key of
  the \<open>nil\<close> map, gives the \<open>nil\<close> slice and \<open>ok = false\<close>.
\<close>

definition rsHandlersAt :: "'v Canal \<Rightarrow> string \<Rightarrow> 'v RowsEventHandler list \<times> bool" where
  "rsHandlersAt c k =
     (case rsHandlers c of
        None \<Rightarrow> ([], False)
      | Some m \<Rightarrow> (case m k of None \<Rightarrow> ([], False) | Some hs \<Rightarrow> (hs, True)))"

definition RegisterRowsEventHandler ::
  "string \<Rightarrow> 'v RowsEventHandler list \<Rightarrow> 'v Canal \<Rightarrow> 'v Canal" where
  "RegisterRowsEventHandler tableName h c =
     (let m = (case rsHandlers c of None \<Rightarrow> Map.empty | Some m \<Rightarrow> m);
          hs = (case m tableName of None \<Rightarrow> [] | Some hs \<Rightarrow> hs)
      in c\<lparr>rsHandlers := Some (m(tableName \<mapsto> hs @ h))\<rparr>)"

subsection \<open>The error group\<close>

text \<open>
  An \<open>errgroup.Group\<close> is the list of the functions passed to \<open>Go\<close>, in the order of the
  calls. Each runs in its own goroutine; \<open>Wait\<close> returns when all have returned, with the
  error of the first that returned one, or \<open>nil\<close>. The order in which the goroutines
  return is the schedule \<open>sched\<close>, a list of positions in the group.
\<close>

type_synonym Group = "(unit \<Rightarrow> error option) list"

definition errgroup_WithContext :: "Context \<Rightarrow> Group \<times> Context" where
  "errgroup_WithContext ctx = ([], WithCancel ctx)"

definition errgroup_Go :: "Group \<Rightarrow> (unit \<Rightarrow> error option) \<Rightarrow> Group" where
  "errgroup_Go g f = g @ [f]"

fun firstErr :: "error option list \<Rightarrow> error option" where
  "firstErr [] = None"
| "firstErr (None # rs) = firstErr rs"
| "firstErr (Some err # rs) = Some err"

definition errgroup_Wait :: "nat list \<Rightarrow> Group \<Rightarrow> error option" where
  "errgroup_Wait sched g =
     firstErr (map (\<lambda>i. if i < length g then (g ! i) () else None) sched)"

text \<open>A schedule of a group of \<open>n\<close> goroutines: each position once, in any order.\<close>

definition schedule :: "nat list \<Rightarrow> nat \<Rightarrow> bool" where
  "schedule sched n = (distinct sched \<and> set sched = {0..<n})"

subsection \<open>processRowsEventHandler\<close>

text \<open>
  \<open>errGoFn\<close> is the closure started for handler \<open>h\<close>; the context, action, table and rows
  it captures are arguments here.
\<close>

definition errGoFn ::
  "Context \<Rightarrow> string \<Rightarrow> Table \<Rightarrow> 'v list list \<Rightarrow> 'v RowsEventHandler
   \<Rightarrow> unit \<Rightarrow> error option" where
  "errGoFn ctx action table rows h =
     (\<lambda>_. case Do h ctx action table rows of
             None \<Rightarrow> None
           | Some err \<Rightarrow>
               (if errors_Is err Interrupted then errors_WithStack (Some err) else None))"

text \<open>The group after the two loops of \<open>erg.Go\<close> calls, and the result of waiting for it.\<close>

definition rowsEventGroup ::
  "'v Canal \<Rightarrow> Context \<Rightarrow> string \<Rightarrow> Table \<Rightarrow> 'v list list \<Rightarrow> Group" where
  "rowsEventGroup c ctx0 action table rows =
     (let (erg, ctx) = errgroup_WithContext ctx0;
          erg = (case rsHandlersAt c (Table.Name table) of
                   (hs, ok) \<Rightarrow>
                     if ok \<and> Table.Name table \<noteq> []
                     then foldl (\<lambda>g h. errgroup_Go g (errGoFn ctx action table rows h)) erg hs
                     else erg)
      in foldl (\<lambda>g h. errgroup_Go g (errGoFn ctx action table rows h)) erg
           (fst (rsHandlersAt c [])))"

definition processRowsEventHandler ::
  "nat list \<Rightarrow> 'v Canal \<Rightarrow> Context \<Rightarrow> string \<Rightarrow> Table \<Rightarrow> 'v list list \<Rightarrow> error option" where
  "processRowsEventHandler sched c ctx0 action table rows =
     errors_WithStack (errgroup_Wait sched (rowsEventGroup c ctx0 action table rows))"

text \<open>
  The handlers the two loops range over for an event of table \<open>tableName\<close>: those under
  the exact name, unless the name is empty, then those under the empty name.
\<close>

definition matchedHandlers :: "'v Canal \<Rightarrow> string \<Rightarrow> 'v RowsEventHandler list" where
  "matchedHandlers c tableName =
     (if tableName \<noteq> [] then fst (rsHandlersAt c tableName) else [])
     @ fst (rsHandlersAt c [])"

subsection \<open>flushEventHandlers\<close>

text \<open>
  The closure started for each handler of each map entry. \<open>range\<close> over a Go map visits
  every key once, in an order that is not fixed: \<open>ks\<close> is that order.
\<close>

definition completeFn ::
  "Context \<Rightarrow> string \<Rightarrow> 'v RowsEventHandler \<Rightarrow> unit \<Rightarrow> error option" where
  "completeFn ctx tblName h =
     (\<lambda>_. case Complete h ctx of
             None \<Rightarrow> None
           | Some err \<Rightarrow>
               (if errors_Is err Interrupted then errors_WithStack (Some err) else None))"

definition mapKeys :: "'v Canal \<Rightarrow> string set" where
  "mapKeys c = (case rsHandlers c of None \<Rightarrow> {} | Some m \<Rightarrow> dom m)"

definition mapRange :: "string list \<Rightarrow> 'v Canal \<Rightarrow> bool" where
  "mapRange ks c = (distinct ks \<and> set ks = mapKeys c)"

definition flushGroup :: "string list \<Rightarrow> 'v Canal \<Rightarrow> Context \<Rightarrow> Group" where
  "flushGroup ks c ctx0 =
     (let (erg, ctx) = errgroup_WithContext ctx0
      in foldl (\<lambda>g tblName.
                  foldl (\<lambda>g h. errgroup_Go g (completeFn ctx tblName h)) g
                    (fst (rsHandlersAt c tblName)))
           erg ks)"

definition flushEventHandlers ::
  "string list \<Rightarrow> nat list \<Rightarrow> 'v Canal \<Rightarrow> Context \<Rightarrow> error option" where
  "flushEventHandlers ks sched c ctx0 =
     errors_Wrap (errgroup_Wait sched (flushGroup ks c ctx0))
       ''[binlogsync] flushEventHandlers errgroup Wait''"


section \<open>Example inputs\<close>

text \<open>
  Four handlers (one that succeeds, one that fails with an ordinary error, two that ask
  to stop the syncer, each with its own message), registries built from them with
  \<open>RegisterRowsEventHandler\<close>, three tables, an upstream that is down, an upstream that answers the status query, and the
  world after loading \<open>mysql-bin.000005\<close> at offset 4820.
\<close>

definition handlerSuccess :: "nat RowsEventHandler" where
  "handlerSuccess =
     \<lparr>Do = (\<lambda>ctx action t rows. None), Complete = (\<lambda>ctx. None), String = ''success''\<rparr>"

definition handlerOther :: "nat RowsEventHandler" where
  "handlerOther =
     \<lparr>Do = (\<lambda>ctx action t rows. Some (Error Other ''sink unreachable'')),
      Complete = (\<lambda>ctx. Some (Error Other ''sink unreachable'')),
      String = ''other''\<rparr>"

definition handlerInterrupted :: "nat RowsEventHandler" where
  "handlerInterrupted =
     \<lparr>Do = (\<lambda>ctx action t rows. Some (Error Interrupted ''stop the syncer'')),
      Complete = (\<lambda>ctx. Some (Error Interrupted ''stop the syncer'')),
      String = ''interrupted''\<rparr>"

definition canalEmpty :: "nat Canal" where
  "canalEmpty = \<lparr>rsHandlers = None\<rparr>"

definition canalOrders :: "nat Canal" where
  "canalOrders =
     RegisterRowsEventHandler [] [handlerOther]
       (RegisterRowsEventHandler ''orders'' [handlerSuccess] canalEmpty)"

definition canalFanOut :: "nat Canal" where
  "canalFanOut =
     RegisterRowsEventHandler ''orders'' [handlerSuccess, handlerOther, handlerSuccess] canalEmpty"

definition canalStop :: "nat Canal" where
  "canalStop =
     RegisterRowsEventHandler [] [handlerSuccess]
       (RegisterRowsEventHandler ''orders'' [handlerInterrupted] canalEmpty)"

definition canalFlush :: "nat Canal" where
  "canalFlush =
     RegisterRowsEventHandler [] [handlerInterrupted]
       (RegisterRowsEventHandler ''orders'' [handlerSuccess, handlerOther] canalEmpty)"

definition handlerHalt :: "nat RowsEventHandler" where
  "handlerHalt =
     \<lparr>Do = (\<lambda>ctx action t rows. Some (Error Interrupted ''halt the syncer'')),
      Complete = (\<lambda>ctx. Some (Error Interrupted ''halt the syncer'')),
      String = ''halt''\<rparr>"

definition canalTwoStops :: "nat Canal" where
  "canalTwoStops =
     RegisterRowsEventHandler [] [handlerHalt]
       (RegisterRowsEventHandler ''orders'' [handlerInterrupted] canalEmpty)"

definition canalWildcards :: "nat Canal" where
  "canalWildcards =
     RegisterRowsEventHandler ''orders'' [handlerSuccess]
       (RegisterRowsEventHandler [] [handlerInterrupted, handlerHalt] canalEmpty)"

definition canalTwice :: "nat Canal" where
  "canalTwice =
     RegisterRowsEventHandler [] [handlerHalt]
       (RegisterRowsEventHandler [] [handlerHalt] canalEmpty)"

definition tableOrders :: Table where
  "tableOrders = \<lparr>Table.Name = ''orders''\<rparr>"

definition tableCustomers :: Table where
  "tableCustomers = \<lparr>Table.Name = ''customers''\<rparr>"

definition tableUnnamed :: Table where
  "tableUnnamed = \<lparr>Table.Name = []\<rparr>"

definition execDown :: Executer where
  "execDown query = Inl (Error Other ''connection refused'')"

definition resultStatus :: "string \<Rightarrow> 64 word \<Rightarrow> Result" where
  "resultStatus name pos =
     \<lparr>GetString = (\<lambda>row column. if row = 0 \<and> column = 0 then Inr name
                                  else Inl (Error Other ''invalid column'')),
      GetUint = (\<lambda>row column. if row = 0 \<and> column = 1 then Inr pos
                                else Inl (Error Other ''invalid column''))\<rparr>"

definition execStatus :: "string \<Rightarrow> 64 word \<Rightarrow> Executer" where
  "execStatus name pos query = Inr (resultStatus name pos)"

definition worldLoaded :: World where
  "worldLoaded =
     \<lparr>info = \<lparr>masterInfo.Name = ''mysql-bin.000005'', Position = 4820, lastSaveTime = 0\<rparr>,
      durable = None\<rparr>"


section \<open>Properties of the position store\<close>

lemma Time_Sub_less_Second: "Time_Sub n t < Second \<longleftrightarrow> n - t < Second"
  by (simp add: Time_Sub_def Let_def minDuration_def maxDuration_def Second_def)

lemma unat_ucast_64_32: "unat (ucast (pos :: 64 word) :: 32 word) = unat pos mod 2 ^ 32"
  by (simp add: unsigned_ucast_eq take_bit_eq_mod)

text \<open>
  The debounce of \<open>Save\<close> in terms of the elapsed time: the saturation of \<open>Time.Sub\<close>
  does not change the comparison with one second. No branch writes the storage.
\<close>

lemma Save_debounce:
  "Save force n w =
     (if \<not> force \<and> n - lastSaveTime (info w) < Second then (None, w)
      else (None, w\<lparr>info := (info w)\<lparr>lastSaveTime := n\<rparr>\<rparr>))"
  by (simp add: Save_def Time_Sub_less_Second)

lemma Save_durable: "durable (snd (Save force n w)) = durable w"
  by (simp add: Save_def)

text \<open>
  C2. \<open>Save(force)\<close> is to persist the current position whenever it is forced or a second
  has passed. On the world loaded at \<open>mysql-bin.000005\<close>, offset 4820, with nothing in
  durable storage, a forced \<open>Save\<close> returns \<open>nil\<close> and records the timestamp, and the
  durable storage still holds nothing: the position is not persisted.
\<close>

theorem Save_forced_writes_nothing:
  "Save True 2000000000 worldLoaded =
     (None,
      \<lparr>info = \<lparr>masterInfo.Name = ''mysql-bin.000005'', Position = 4820,
                lastSaveTime = 2000000000\<rparr>,
       durable = None\<rparr>)"
  by (simp add: Save_def worldLoaded_def)

text \<open>
  C4, as stated, fails. When the status query fails with an ordinary error,
  \<open>loadMasterInfo\<close> returns that error wrapped, and its kind is not \<open>DataUnavailable\<close>;
  when the second column is \<open>2^32 + 5\<close>, the offset of the returned position is 5, not the
  fetched value.
\<close>

theorem loadMasterInfo_kind_counterexample:
  "loadMasterInfo execDown =
     (None, Some (Error Other
        ''[mybinlogsync] Failed to execute SHOW MASTER STATUS: connection refused''))
   \<and> \<not> errors_Is (Error Other
           ''[mybinlogsync] Failed to execute SHOW MASTER STATUS: connection refused'')
         DataUnavailable
   \<and> loadMasterInfo (execStatus ''mysql-bin.000005'' 4294967301) =
       (Some \<lparr>masterInfo.Name = ''mysql-bin.000005'', Position = 5, lastSaveTime = 0\<rparr>, None)
   \<and> unat (5 :: 32 word) \<noteq> unat (4294967301 :: 64 word)"
  by (simp add: loadMasterInfo_def execDown_def execStatus_def resultStatus_def errors_Is_def)

text \<open>
  C4, amended. \<open>loadMasterInfo\<close> fails, with no position, whenever the status query
  fails or the first or the second column of the first row cannot be read; the error it
  returns is the underlying error wrapped with a message that names the failed step, and has
  the kind of the underlying error. Otherwise it returns no error and a position whose log
  file name is the first column and whose offset is the second column modulo \<open>2^32\<close>.
\<close>

theorem loadMasterInfo_result:
  "(\<forall>err. exec ''SHOW MASTER STATUS'' = Inl err \<longrightarrow>
      loadMasterInfo exec =
        (None, Some (Error (kind err)
           (''[mybinlogsync] Failed to execute SHOW MASTER STATUS'' @ '': '' @ message err))))
   \<and> (\<forall>res err. exec ''SHOW MASTER STATUS'' = Inr res \<and> GetString res 0 0 = Inl err \<longrightarrow>
      loadMasterInfo exec =
        (None, Some (Error (kind err)
           (''[mybinlogsync] Failed to fetch first row with 1st column'' @ '': '' @ message err))))
   \<and> (\<forall>res name err. exec ''SHOW MASTER STATUS'' = Inr res \<and> GetString res 0 0 = Inr name
        \<and> GetUint res 0 1 = Inl err \<longrightarrow>
      loadMasterInfo exec =
        (None, Some (Error (kind err)
           (''[mybinlogsync] Failed to fetch first row with 2nd column'' @ '': '' @ message err))))
   \<and> (\<forall>res name pos. exec ''SHOW MASTER STATUS'' = Inr res \<and> GetString res 0 0 = Inr name
        \<and> GetUint res 0 1 = Inr pos \<longrightarrow>
      (\<exists>m. loadMasterInfo exec = (Some m, None) \<and> masterInfo.Name m = name
           \<and> unat (Position m) = unat pos mod 2 ^ 32))"
  by (simp add: loadMasterInfo_def unat_ucast_64_32)

theorem loadMasterInfo_result_witness:
  "execDown ''SHOW MASTER STATUS'' = Inl (Error Other ''connection refused'')
   \<and> loadMasterInfo execDown =
       (None, Some (Error Other
          ''[mybinlogsync] Failed to execute SHOW MASTER STATUS: connection refused''))
   \<and> (\<exists>m. loadMasterInfo (execStatus ''mysql-bin.000005'' 4820) = (Some m, None)
         \<and> masterInfo.Name m = ''mysql-bin.000005'' \<and> unat (Position m) = 4820)"
proof -
  have d: "execDown ''SHOW MASTER STATUS'' = Inl (Error Other ''connection refused'')"
    by (simp add: execDown_def)
  have s: "execStatus ''mysql-bin.000005'' 4820 ''SHOW MASTER STATUS''
             = Inr (resultStatus ''mysql-bin.000005'' 4820)
           \<and> GetString (resultStatus ''mysql-bin.000005'' 4820) 0 0 = Inr ''mysql-bin.000005''
           \<and> GetUint (resultStatus ''mysql-bin.000005'' 4820) 0 1 = Inr 4820"
    by (simp add: execStatus_def resultStatus_def)
  show ?thesis
    using d s loadMasterInfo_result [of execDown]
      loadMasterInfo_result [of "execStatus ''mysql-bin.000005'' 4820"]
    by simp
qed

text \<open>
  C7. \<open>Update(name, offset)\<close> has no error result; it sets the in-memory log file name and
  offset to the given values, leaves the last-persist timestamp unchanged and leaves the
  durable storage as it is.
\<close>

theorem Update_frame:
  "masterInfo.Name (info (Update name pos w)) = name
   \<and> Position (info (Update name pos w)) = pos
   \<and> lastSaveTime (info (Update name pos w)) = lastSaveTime (info w)
   \<and> durable (Update name pos w) = durable w"
  by (simp add: Update_def)

theorem Update_frame_witness:
  "Update ''mysql-bin.000006'' 4 worldLoaded =
     \<lparr>info = \<lparr>masterInfo.Name = ''mysql-bin.000006'', Position = 4, lastSaveTime = 0\<rparr>,
      durable = None\<rparr>"
proof -
  have "info worldLoaded = \<lparr>masterInfo.Name = ''mysql-bin.000005'', Position = 4820, lastSaveTime = 0\<rparr>"
    and "durable worldLoaded = None"
    by (simp_all add: worldLoaded_def)
  then show ?thesis
    using Update_frame [of "''mysql-bin.000006''" 4 worldLoaded]
    by (cases "Update ''mysql-bin.000006'' 4 worldLoaded",
        cases "info (Update ''mysql-bin.000006'' 4 worldLoaded)") simp
qed

text \<open>
  C8. \<open>Close()\<close> is \<open>Save\<close> with \<open>force = true\<close>: whatever the time of the last persist,
  it takes the branch of \<open>Save\<close> past the one-second debounce and sets the timestamp to the
  current time.
\<close>

theorem Close_forces_Save:
  "Close n w = snd (Save True n w)
   \<and> Close n w = w\<lparr>info := (info w)\<lparr>lastSaveTime := n\<rparr>\<rparr>"
  by (simp add: Close_def Save_def)

theorem Close_forces_Save_witness:
  "snd (Save False 500000000 (worldLoaded\<lparr>info := (info worldLoaded)\<lparr>lastSaveTime := 400000000\<rparr>\<rparr>))
     = worldLoaded\<lparr>info := (info worldLoaded)\<lparr>lastSaveTime := 400000000\<rparr>\<rparr>
   \<and> lastSaveTime
       (info (Close 500000000
                (worldLoaded\<lparr>info := (info worldLoaded)\<lparr>lastSaveTime := 400000000\<rparr>\<rparr>)))
     = 500000000"
  using Close_forces_Save
          [of 500000000 "worldLoaded\<lparr>info := (info worldLoaded)\<lparr>lastSaveTime := 400000000\<rparr>\<rparr>"]
  by (simp add: Save_debounce Second_def)

text \<open>
  C10. When the status query and both columns are read, \<open>loadMasterInfo\<close> returns no
  error and stores the 64-bit offset converted to 32 bits, that is the offset modulo
  \<open>2^32\<close>; an offset of \<open>2^32\<close> or more is stored changed, not rejected.
\<close>

theorem loadMasterInfo_truncates_offset:
  assumes "exec ''SHOW MASTER STATUS'' = Inr res"
    and "GetString res 0 0 = Inr name"
    and "GetUint res 0 1 = Inr pos"
  shows "\<exists>m. loadMasterInfo exec = (Some m, None)
           \<and> Position m = ucast pos
           \<and> unat (Position m) = unat pos mod 2 ^ 32
           \<and> (2 ^ 32 \<le> unat pos \<longrightarrow> unat (Position m) \<noteq> unat pos)"
proof -
  have "unat pos mod 2 ^ 32 < 2 ^ 32" by simp
  then have "2 ^ 32 \<le> unat pos \<longrightarrow> unat pos mod 2 ^ 32 \<noteq> unat pos" by linarith
  then show ?thesis
    using assms by (simp add: loadMasterInfo_def unat_ucast_64_32)
qed

theorem loadMasterInfo_truncates_offset_witness:
  "execStatus ''mysql-bin.000005'' 4294967301 ''SHOW MASTER STATUS''
     = Inr (resultStatus ''mysql-bin.000005'' 4294967301)
   \<and> GetString (resultStatus ''mysql-bin.000005'' 4294967301) 0 0 = Inr ''mysql-bin.000005''
   \<and> GetUint (resultStatus ''mysql-bin.000005'' 4294967301) 0 1 = Inr 4294967301
   \<and> (\<exists>m. loadMasterInfo (execStatus ''mysql-bin.000005'' 4294967301) = (Some m, None)
         \<and> unat (Position m) = 5)"
proof -
  have e: "execStatus ''mysql-bin.000005'' 4294967301 ''SHOW MASTER STATUS''
             = Inr (resultStatus ''mysql-bin.000005'' 4294967301)"
    by (simp add: execStatus_def)
  have s: "GetString (resultStatus ''mysql-bin.000005'' 4294967301) 0 0 = Inr ''mysql-bin.000005''"
    by (simp add: resultStatus_def)
  have u: "GetUint (resultStatus ''mysql-bin.000005'' 4294967301) 0 1 = Inr 4294967301"
    by (simp add: resultStatus_def)
  show ?thesis
    using e s u
      loadMasterInfo_truncates_offset
        [of "execStatus ''mysql-bin.000005'' 4294967301"
            "resultStatus ''mysql-bin.000005'' 4294967301" "''mysql-bin.000005''" 4294967301]
    by auto
qed

section \<open>Properties of the registry, the dispatch and the flush\<close>

subsection \<open>Groups and schedules\<close>

lemma errors_WithStack_id: "errors_WithStack r = r"
  by (cases r) simp_all

lemma errors_Wrap_None_iff: "errors_Wrap r msg = None \<longleftrightarrow> r = None"
  by (cases r) simp_all

lemma errors_Wrap_Some_kind:
  "errors_Wrap r msg = Some err \<Longrightarrow> \<exists>err0. r = Some err0 \<and> kind err = kind err0"
  by (cases r) auto

lemma foldl_errgroup_Go:
  "foldl (\<lambda>g h. errgroup_Go g (f h)) g hs = g @ map f hs"
  by (induction hs arbitrary: g) (simp_all add: errgroup_Go_def)

lemma foldl_foldl_errgroup_Go:
  "foldl (\<lambda>g k. foldl (\<lambda>g h. errgroup_Go g (f k h)) g (hs k)) g ks
     = g @ concat (map (\<lambda>k. map (f k) (hs k)) ks)"
  by (induction ks arbitrary: g) (simp_all add: foldl_errgroup_Go)

lemma firstErr_None_iff: "firstErr rs = None \<longleftrightarrow> (\<forall>r\<in>set rs. r = None)"
  by (induction rs rule: firstErr.induct) simp_all

lemma firstErr_Some_mem: "firstErr rs = Some err \<Longrightarrow> Some err \<in> set rs"
  by (induction rs rule: firstErr.induct) simp_all

text \<open>Under a schedule every goroutine of the group returns, and nothing else does.\<close>

lemma schedule_outcomes:
  assumes "schedule sched (length g)"
  shows "set (map (\<lambda>i. if i < length g then (g ! i) () else None) sched) = (\<lambda>f. f ()) ` set g"
proof -
  from assms have s: "set sched = {0..<length g}" by (simp add: schedule_def)
  have "set (map (\<lambda>i. if i < length g then (g ! i) () else None) sched)
        = (\<lambda>i. (g ! i) ()) ` {0..<length g}"
    using s by (auto simp: image_iff)
  also have "\<dots> = (\<lambda>f. f ()) ` ((!) g ` {0..<length g})"
    by (simp add: image_image)
  also have "(!) g ` {0..<length g} = set g"
    by (metis map_nth set_map set_upt)
  finally show ?thesis .
qed

lemma errgroup_Wait_None_iff:
  "schedule sched (length g) \<Longrightarrow> errgroup_Wait sched g = None \<longleftrightarrow> (\<forall>f\<in>set g. f () = None)"
  by (simp add: errgroup_Wait_def firstErr_None_iff schedule_outcomes del: set_map)

lemma errgroup_Wait_Some_mem:
  "schedule sched (length g) \<Longrightarrow> errgroup_Wait sched g = Some err \<Longrightarrow> \<exists>f\<in>set g. f () = Some err"
  unfolding errgroup_Wait_def
  by (drule firstErr_Some_mem) (auto simp: schedule_outcomes simp del: set_map)

subsection \<open>The closures and the groups they form\<close>

lemma errGoFn_result:
  "errGoFn ctx action table rows h () =
     (case Do h ctx action table rows of
        None \<Rightarrow> None
      | Some err \<Rightarrow> if errors_Is err Interrupted then Some err else None)"
  by (simp add: errGoFn_def split: option.splits)

lemma completeFn_result:
  "completeFn ctx tblName h () =
     (case Complete h ctx of
        None \<Rightarrow> None
      | Some err \<Rightarrow> if errors_Is err Interrupted then Some err else None)"
  by (simp add: completeFn_def split: option.splits)

lemma completeFn_fails_iff:
  "completeFn ctx tblName h () \<noteq> None \<longleftrightarrow>
     (\<exists>err. Complete h ctx = Some err \<and> errors_Is err Interrupted)"
  by (cases "Complete h ctx") (simp_all add: completeFn_result)

lemma rowsEventGroup_eq:
  "rowsEventGroup c ctx0 action table rows =
     map (errGoFn (WithCancel ctx0) action table rows) (matchedHandlers c (Table.Name table))"
  by (simp add: rowsEventGroup_def matchedHandlers_def errgroup_WithContext_def
      foldl_errgroup_Go rsHandlersAt_def split: prod.splits option.splits)

lemma flushGroup_eq:
  "flushGroup ks c ctx0 =
     concat (map (\<lambda>k. map (completeFn (WithCancel ctx0) k) (fst (rsHandlersAt c k))) ks)"
  by (simp add: flushGroup_def errgroup_WithContext_def foldl_foldl_errgroup_Go)

lemma flushGroup_members:
  "(\<exists>f\<in>set (flushGroup ks c ctx0). P (f ())) \<longleftrightarrow>
   (\<exists>k\<in>set ks. \<exists>h\<in>set (fst (rsHandlersAt c k)). P (completeFn (WithCancel ctx0) k h ()))"
  by (auto simp: flushGroup_eq)

text \<open>
  The goroutine at position \<open>i\<close> of the dispatch group calls \<open>Do\<close> of the \<open>i\<close>-th matched
  handler and passes on an \<open>Interrupted\<close> error only; the dispatch returns the first
  error among these results in the order in which the goroutines return.
\<close>

lemma rowsEventGroup_length:
  "length (rowsEventGroup c ctx0 action table rows) = length (matchedHandlers c (Table.Name table))"
  by (simp add: rowsEventGroup_eq)

lemma rowsEventGroup_task:
  "i < length (matchedHandlers c (Table.Name table)) \<Longrightarrow>
   (rowsEventGroup c ctx0 action table rows ! i) () =
     (case Do (matchedHandlers c (Table.Name table) ! i) (WithCancel ctx0) action table rows of
        None \<Rightarrow> None
      | Some err \<Rightarrow> if errors_Is err Interrupted then Some err else None)"
  by (simp add: rowsEventGroup_eq errGoFn_result)

lemma processRowsEventHandler_by_schedule:
  assumes "schedule sched (length (matchedHandlers c (Table.Name table)))"
  shows "processRowsEventHandler sched c ctx0 action table rows =
     firstErr (map (\<lambda>i. case Do (matchedHandlers c (Table.Name table) ! i) (WithCancel ctx0)
                               action table rows of
                          None \<Rightarrow> None
                        | Some err \<Rightarrow> if errors_Is err Interrupted then Some err else None)
                 sched)"
proof -
  let ?hs = "matchedHandlers c (Table.Name table)"
  let ?g = "rowsEventGroup c ctx0 action table rows"
  have in_range: "i < length ?hs" if "i \<in> set sched" for i
    using assms that by (simp add: schedule_def)
  have "map (\<lambda>i. if i < length ?g then (?g ! i) () else None) sched =
        map (\<lambda>i. case Do (?hs ! i) (WithCancel ctx0) action table rows of
                    None \<Rightarrow> None
                  | Some err \<Rightarrow> if errors_Is err Interrupted then Some err else None) sched"
    by (rule map_cong) (simp_all add: rowsEventGroup_length rowsEventGroup_task in_range)
  then show ?thesis
    by (simp only: processRowsEventHandler_def errgroup_Wait_def errors_WithStack_id)
qed

lemma rsHandlersAt_Register_same:
  "rsHandlersAt (RegisterRowsEventHandler F H c) F = (fst (rsHandlersAt c F) @ H, True)"
  by (simp add: RegisterRowsEventHandler_def rsHandlersAt_def split: option.splits)

lemma rsHandlersAt_Register_other:
  "G \<noteq> F \<Longrightarrow> rsHandlersAt (RegisterRowsEventHandler F H c) G = rsHandlersAt c G"
  by (simp add: RegisterRowsEventHandler_def rsHandlersAt_def split: option.splits)

subsection \<open>The example registries\<close>

lemma canalEmpty_matched: "matchedHandlers canalEmpty T = []"
  by (simp add: matchedHandlers_def canalEmpty_def rsHandlersAt_def)

lemma canalOrders_at:
  "rsHandlersAt canalOrders ''orders'' = ([handlerSuccess], True)"
  "rsHandlersAt canalOrders ''customers'' = ([], False)"
  "rsHandlersAt canalOrders [] = ([handlerOther], True)"
  by (simp_all add: canalOrders_def canalEmpty_def RegisterRowsEventHandler_def rsHandlersAt_def)

lemma canalFanOut_matched:
  "matchedHandlers canalFanOut ''orders'' = [handlerSuccess, handlerOther, handlerSuccess]"
  by (simp add: matchedHandlers_def canalFanOut_def canalEmpty_def RegisterRowsEventHandler_def
      rsHandlersAt_def)

lemma canalStop_matched:
  "matchedHandlers canalStop ''orders'' = [handlerInterrupted, handlerSuccess]"
  by (simp add: matchedHandlers_def canalStop_def canalEmpty_def RegisterRowsEventHandler_def
      rsHandlersAt_def)

lemma canalFlush_at:
  "rsHandlersAt canalFlush [] = ([handlerInterrupted], True)"
  "rsHandlersAt canalFlush ''orders'' = ([handlerSuccess, handlerOther], True)"
  by (simp_all add: canalFlush_def canalEmpty_def RegisterRowsEventHandler_def rsHandlersAt_def)

lemma canalFlush_keys: "mapKeys canalFlush = {[], ''orders''}"
  by (auto simp: mapKeys_def canalFlush_def canalEmpty_def RegisterRowsEventHandler_def)

lemma canalTwoStops_at:
  "rsHandlersAt canalTwoStops ''orders'' = ([handlerInterrupted], True)"
  "rsHandlersAt canalTwoStops ''customers'' = ([], False)"
  "rsHandlersAt canalTwoStops [] = ([handlerHalt], True)"
  by (simp_all add: canalTwoStops_def canalEmpty_def RegisterRowsEventHandler_def rsHandlersAt_def)

lemma canalWildcards_at:
  "rsHandlersAt canalWildcards [] = ([handlerInterrupted, handlerHalt], True)"
  by (simp add: canalWildcards_def canalEmpty_def RegisterRowsEventHandler_def rsHandlersAt_def)

lemma canalTwice_at:
  "rsHandlersAt canalTwice [] = ([handlerHalt, handlerHalt], True)"
  by (simp add: canalTwice_def canalEmpty_def RegisterRowsEventHandler_def rsHandlersAt_def)

lemma Do_handlerInterrupted:
  "Do handlerInterrupted ctx action t rows = Some (Error Interrupted ''stop the syncer'')"
  by (simp add: handlerInterrupted_def)

lemma Do_handlerHalt:
  "Do handlerHalt ctx action t rows = Some (Error Interrupted ''halt the syncer'')"
  by (simp add: handlerHalt_def)

subsection \<open>Dispatch\<close>

text \<open>
  The verdict of a dispatch, by cases: if a matched handler's \<open>Do\<close> returns an error of
  kind \<open>Interrupted\<close>, the dispatch returns such an error of one of them; otherwise it
  returns \<open>nil\<close>.
\<close>

lemma processRowsEventHandler_cases:
  assumes "schedule sched (length (matchedHandlers c (Table.Name table)))"
  shows "if \<exists>h\<in>set (matchedHandlers c (Table.Name table)).
              \<exists>err. Do h (WithCancel ctx0) action table rows = Some err \<and> errors_Is err Interrupted
         then \<exists>h\<in>set (matchedHandlers c (Table.Name table)).
              \<exists>err. Do h (WithCancel ctx0) action table rows = Some err \<and> errors_Is err Interrupted
                  \<and> processRowsEventHandler sched c ctx0 action table rows = Some err
         else processRowsEventHandler sched c ctx0 action table rows = None"
proof -
  let ?hs = "matchedHandlers c (Table.Name table)"
  let ?g = "rowsEventGroup c ctx0 action table rows"
  let ?r = "processRowsEventHandler sched c ctx0 action table rows"
  have g: "?g = map (errGoFn (WithCancel ctx0) action table rows) ?hs"
    by (rule rowsEventGroup_eq)
  have sch: "schedule sched (length ?g)"
    using assms by (simp add: g)
  have r: "?r = errgroup_Wait sched ?g"
    by (simp add: processRowsEventHandler_def errors_WithStack_id)
  show ?thesis
  proof (cases "\<exists>h\<in>set ?hs. \<exists>err. Do h (WithCancel ctx0) action table rows = Some err
                   \<and> errors_Is err Interrupted")
    case True
    then obtain h0 err0 where h0: "h0 \<in> set ?hs"
      "Do h0 (WithCancel ctx0) action table rows = Some err0" "errors_Is err0 Interrupted"
      by blast
    then have "errGoFn (WithCancel ctx0) action table rows h0 () = Some err0"
      by (simp add: errGoFn_result)
    moreover have "errGoFn (WithCancel ctx0) action table rows h0 \<in> set ?g"
      using h0(1) by (simp add: g)
    ultimately have "\<not> (\<forall>f\<in>set ?g. f () = None)"
      by force
    then have "?r \<noteq> None"
      using errgroup_Wait_None_iff [OF sch] r by simp
    then obtain err where e: "?r = Some err" by auto
    then have "\<exists>f\<in>set ?g. f () = Some err"
      using errgroup_Wait_Some_mem [OF sch] r by simp
    then obtain h where "h \<in> set ?hs" "errGoFn (WithCancel ctx0) action table rows h () = Some err"
      by (auto simp: g)
    then have "h \<in> set ?hs \<and> Do h (WithCancel ctx0) action table rows = Some err
               \<and> errors_Is err Interrupted"
      by (auto simp: errGoFn_result split: option.splits if_splits)
    with e True show ?thesis by auto
  next
    case False
    then have "\<forall>f\<in>set ?g. f () = None"
      by (auto simp: g errGoFn_result split: option.splits)
    then have "?r = None"
      using errgroup_Wait_None_iff [OF sch] r by simp
    with False show ?thesis by simp
  qed
qed

text \<open>
  C1. For every event, registry and order in which the handler goroutines return, the
  dispatch returns an error of kind \<open>Interrupted\<close> if and only if the \<open>Do\<close> of at least
  one matched handler returned an error of kind \<open>Interrupted\<close>; if none did, whatever
  other errors the handlers returned, the dispatch returns \<open>nil\<close>, and so it does when no
  handler is matched. An error the dispatch returns is one a matched handler returned.
\<close>

theorem processRowsEventHandler_verdict:
  assumes "schedule sched (length (matchedHandlers c (Table.Name table)))"
  shows "((\<exists>err. processRowsEventHandler sched c ctx0 action table rows = Some err
                 \<and> errors_Is err Interrupted)
          \<longleftrightarrow> (\<exists>h\<in>set (matchedHandlers c (Table.Name table)).
                 \<exists>err. Do h (WithCancel ctx0) action table rows = Some err
                     \<and> errors_Is err Interrupted))
         \<and> (\<not> (\<exists>h\<in>set (matchedHandlers c (Table.Name table)).
                 \<exists>err. Do h (WithCancel ctx0) action table rows = Some err
                     \<and> errors_Is err Interrupted)
             \<longrightarrow> processRowsEventHandler sched c ctx0 action table rows = None)
         \<and> (matchedHandlers c (Table.Name table) = []
             \<longrightarrow> processRowsEventHandler sched c ctx0 action table rows = None)
         \<and> (\<forall>err. processRowsEventHandler sched c ctx0 action table rows = Some err
             \<longrightarrow> (\<exists>h\<in>set (matchedHandlers c (Table.Name table)).
                    Do h (WithCancel ctx0) action table rows = Some err))"
proof (cases "\<exists>h\<in>set (matchedHandlers c (Table.Name table)).
                \<exists>err. Do h (WithCancel ctx0) action table rows = Some err
                    \<and> errors_Is err Interrupted")
  case True
  with processRowsEventHandler_cases [OF assms, of ctx0 action rows]
  obtain h err where "h \<in> set (matchedHandlers c (Table.Name table))"
    "Do h (WithCancel ctx0) action table rows = Some err" "errors_Is err Interrupted"
    "processRowsEventHandler sched c ctx0 action table rows = Some err"
    by auto
  with True show ?thesis by auto
next
  case False
  with processRowsEventHandler_cases [OF assms, of ctx0 action rows]
  have "processRowsEventHandler sched c ctx0 action table rows = None"
    by simp
  with False show ?thesis by auto
qed

theorem processRowsEventHandler_verdict_witness:
  "schedule [1, 0] (length (matchedHandlers canalStop (Table.Name tableOrders)))
   \<and> processRowsEventHandler [1, 0] canalStop Background ''insert'' tableOrders []
       = Some (Error Interrupted ''stop the syncer'')
   \<and> schedule [2, 0, 1] (length (matchedHandlers canalFanOut (Table.Name tableOrders)))
   \<and> processRowsEventHandler [2, 0, 1] canalFanOut Background ''insert'' tableOrders [] = None"
proof -
  have s: "schedule [1, 0] (length (matchedHandlers canalStop (Table.Name tableOrders)))"
    by (auto simp: schedule_def tableOrders_def canalStop_matched)
  have f: "schedule [2, 0, 1] (length (matchedHandlers canalFanOut (Table.Name tableOrders)))"
    by (auto simp: schedule_def tableOrders_def canalFanOut_matched)
  have "processRowsEventHandler [1, 0] canalStop Background ''insert'' tableOrders []
          = Some (Error Interrupted ''stop the syncer'')"
    using processRowsEventHandler_verdict [OF s, of Background "''insert''" "[]"]
    by (auto simp: tableOrders_def canalStop_matched handlerInterrupted_def handlerSuccess_def
        errors_Is_def)
  moreover
  have "processRowsEventHandler [2, 0, 1] canalFanOut Background ''insert'' tableOrders [] = None"
    using processRowsEventHandler_verdict [OF f, of Background "''insert''" "[]"]
    by (simp add: tableOrders_def canalFanOut_matched handlerOther_def handlerSuccess_def
        errors_Is_def)
  ultimately show ?thesis
    using s f by simp
qed


text \<open>
  C3. For an event whose table name \<open>T\<close> is not empty, the dispatch starts one
  goroutine for each handler registered under \<open>T\<close>, in registration order, and then
  one for each handler registered under the empty name, in registration order. The
  goroutine at position \<open>i\<close> calls \<open>Do\<close> of the handler at position \<open>i\<close> of that
  list, with the derived context and the event, and the dispatch returns the first
  \<open>Interrupted\<close> error among those calls in the order in which the goroutines return.
  When nothing is registered under \<open>T\<close>, the list is that of the empty name alone.
\<close>

theorem processRowsEventHandler_named_table:
  assumes "Table.Name table \<noteq> []"
  shows "let hs = fst (rsHandlersAt c (Table.Name table)) @ fst (rsHandlersAt c [])
         in length (rowsEventGroup c ctx0 action table rows) = length hs
          \<and> (\<forall>i<length hs.
                (rowsEventGroup c ctx0 action table rows ! i) () =
                  (case Do (hs ! i) (WithCancel ctx0) action table rows of
                     None \<Rightarrow> None
                   | Some err \<Rightarrow> if errors_Is err Interrupted then Some err else None))
          \<and> (\<forall>sched. schedule sched (length hs) \<longrightarrow>
                processRowsEventHandler sched c ctx0 action table rows =
                  firstErr (map (\<lambda>i. case Do (hs ! i) (WithCancel ctx0) action table rows of
                                       None \<Rightarrow> None
                                     | Some err \<Rightarrow>
                                         if errors_Is err Interrupted then Some err else None)
                              sched))
          \<and> (\<not> snd (rsHandlersAt c (Table.Name table)) \<longrightarrow> hs = fst (rsHandlersAt c []))"
proof -
  have m: "matchedHandlers c (Table.Name table)
             = fst (rsHandlersAt c (Table.Name table)) @ fst (rsHandlersAt c [])"
    using assms by (simp add: matchedHandlers_def)
  have e: "\<not> snd (rsHandlersAt c (Table.Name table)) \<longrightarrow> fst (rsHandlersAt c (Table.Name table)) = []"
    by (simp add: rsHandlersAt_def split: option.splits)
  show ?thesis
    unfolding Let_def
    using rowsEventGroup_length [of c ctx0 action table rows]
      rowsEventGroup_task [of _ c table ctx0 action rows]
      processRowsEventHandler_by_schedule [of _ c table ctx0 action rows] e
    unfolding m by simp
qed

theorem processRowsEventHandler_named_table_witness:
  "Table.Name tableOrders \<noteq> [] \<and> Table.Name tableCustomers \<noteq> []
   \<and> length (rowsEventGroup canalTwoStops Background ''insert'' tableOrders []) = 2
   \<and> (rowsEventGroup canalTwoStops Background ''insert'' tableOrders [] ! 0) ()
       = Some (Error Interrupted ''stop the syncer'')
   \<and> (rowsEventGroup canalTwoStops Background ''insert'' tableOrders [] ! 1) ()
       = Some (Error Interrupted ''halt the syncer'')
   \<and> schedule [0, 1] 2
   \<and> processRowsEventHandler [0, 1] canalTwoStops Background ''insert'' tableOrders []
       = Some (Error Interrupted ''stop the syncer'')
   \<and> schedule [1, 0] 2
   \<and> processRowsEventHandler [1, 0] canalTwoStops Background ''insert'' tableOrders []
       = Some (Error Interrupted ''halt the syncer'')
   \<and> length (rowsEventGroup canalTwoStops Background ''insert'' tableCustomers []) = 1
   \<and> schedule [0] 1
   \<and> processRowsEventHandler [0] canalTwoStops Background ''insert'' tableCustomers []
       = Some (Error Interrupted ''halt the syncer'')"
proof -
  have o: "Table.Name tableOrders \<noteq> []" by (simp add: tableOrders_def)
  have c: "Table.Name tableCustomers \<noteq> []" by (simp add: tableCustomers_def)
  have s01: "schedule [0, 1] 2" and s10: "schedule [1, 0] 2" and s0: "schedule [0] 1"
    by (auto simp: schedule_def)
  have no: "rsHandlersAt canalTwoStops (Table.Name tableOrders) = ([handlerInterrupted], True)"
    and nc: "rsHandlersAt canalTwoStops (Table.Name tableCustomers) = ([], False)"
    by (simp_all add: tableOrders_def tableCustomers_def canalTwoStops_at)
  note orders =
    processRowsEventHandler_named_table [OF o, of canalTwoStops Background "''insert''" "[]"]
  note customers =
    processRowsEventHandler_named_table [OF c, of canalTwoStops Background "''insert''" "[]"]
  have l: "length (rowsEventGroup canalTwoStops Background ''insert'' tableOrders []) = 2"
    using orders by (simp add: Let_def no canalTwoStops_at)
  have t: "(rowsEventGroup canalTwoStops Background ''insert'' tableOrders [] ! i) () =
           (case Do ([handlerInterrupted, handlerHalt] ! i) (WithCancel Background) ''insert''
                   tableOrders [] of
              None \<Rightarrow> None
            | Some err \<Rightarrow> if errors_Is err Interrupted then Some err else None)"
    if "i < 2" for i
    using orders that by (simp add: Let_def no canalTwoStops_at)
  have p: "processRowsEventHandler sched canalTwoStops Background ''insert'' tableOrders [] =
           firstErr (map (\<lambda>i. case Do ([handlerInterrupted, handlerHalt] ! i)
                                     (WithCancel Background) ''insert'' tableOrders [] of
                                None \<Rightarrow> None
                              | Some err \<Rightarrow> if errors_Is err Interrupted then Some err else None)
                       sched)"
    if "schedule sched 2" for sched
    using orders that by (simp add: Let_def no canalTwoStops_at numeral_2_eq_2)
  have lc: "length (rowsEventGroup canalTwoStops Background ''insert'' tableCustomers []) = 1"
    using customers by (simp add: Let_def nc canalTwoStops_at)
  have pc: "processRowsEventHandler sched canalTwoStops Background ''insert'' tableCustomers [] =
           firstErr (map (\<lambda>i. case Do ([handlerHalt] ! i)
                                     (WithCancel Background) ''insert'' tableCustomers [] of
                                None \<Rightarrow> None
                              | Some err \<Rightarrow> if errors_Is err Interrupted then Some err else None)
                       sched)"
    if "schedule sched 1" for sched
    using customers that by (simp add: Let_def nc canalTwoStops_at)
  show ?thesis
    using o c l t [of 0] t [of 1] s01 p [OF s01] s10 p [OF s10] lc s0 pc [OF s0]
    by (simp add: Do_handlerInterrupted Do_handlerHalt errors_Is_def)
qed

text \<open>
  C9, as stated, fails. With the same handler registered twice under the empty name, an
  event whose table name is empty starts two goroutines, and both call \<open>Do\<close> of that
  handler: the handler runs twice.
\<close>

theorem rowsEventGroup_twice_counterexample:
  "fst (rsHandlersAt canalTwice (Table.Name tableUnnamed)) = [handlerHalt, handlerHalt]
   \<and> length (rowsEventGroup canalTwice Background ''insert'' tableUnnamed []) = 2
   \<and> (rowsEventGroup canalTwice Background ''insert'' tableUnnamed [] ! 0) ()
       = Do handlerHalt (WithCancel Background) ''insert'' tableUnnamed []
   \<and> (rowsEventGroup canalTwice Background ''insert'' tableUnnamed [] ! 1) ()
       = Do handlerHalt (WithCancel Background) ''insert'' tableUnnamed []
   \<and> Do handlerHalt (WithCancel Background) ''insert'' tableUnnamed []
       = Some (Error Interrupted ''halt the syncer'')"
  by (simp add: rowsEventGroup_eq matchedHandlers_def tableUnnamed_def canalTwice_at
      errGoFn_result Do_handlerHalt errors_Is_def)

text \<open>
  C9, amended. For an event whose table name is empty, the dispatch starts exactly one
  goroutine for each entry of the list registered under the empty name, in registration
  order, and none for the exact name, whose loop is skipped. The goroutine at position
  \<open>i\<close> calls \<open>Do\<close> of the entry at position \<open>i\<close>, and the dispatch returns the first
  \<open>Interrupted\<close> error among those calls in the order in which the goroutines return.
  A handler runs once for each of its entries in that list: when the list has no
  duplicate, no two goroutines call the same handler.
\<close>

theorem processRowsEventHandler_unnamed_table:
  assumes "Table.Name table = []"
  shows "let hs = fst (rsHandlersAt c [])
         in length (rowsEventGroup c ctx0 action table rows) = length hs
          \<and> (\<forall>i<length hs.
                (rowsEventGroup c ctx0 action table rows ! i) () =
                  (case Do (hs ! i) (WithCancel ctx0) action table rows of
                     None \<Rightarrow> None
                   | Some err \<Rightarrow> if errors_Is err Interrupted then Some err else None))
          \<and> (\<forall>sched. schedule sched (length hs) \<longrightarrow>
                processRowsEventHandler sched c ctx0 action table rows =
                  firstErr (map (\<lambda>i. case Do (hs ! i) (WithCancel ctx0) action table rows of
                                       None \<Rightarrow> None
                                     | Some err \<Rightarrow>
                                         if errors_Is err Interrupted then Some err else None)
                              sched))
          \<and> (distinct hs \<longrightarrow>
                (\<forall>i<length hs. \<forall>j<length hs. hs ! i = hs ! j \<longrightarrow> i = j))"
proof -
  have m: "matchedHandlers c (Table.Name table) = fst (rsHandlersAt c [])"
    using assms by (simp add: matchedHandlers_def)
  show ?thesis
    unfolding Let_def
    using rowsEventGroup_length [of c ctx0 action table rows]
      rowsEventGroup_task [of _ c table ctx0 action rows]
      processRowsEventHandler_by_schedule [of _ c table ctx0 action rows]
    unfolding m by (simp add: nth_eq_iff_index_eq)
qed

theorem processRowsEventHandler_unnamed_table_witness:
  "Table.Name tableUnnamed = []
   \<and> length (rowsEventGroup canalWildcards Background ''insert'' tableUnnamed []) = 2
   \<and> (rowsEventGroup canalWildcards Background ''insert'' tableUnnamed [] ! 0) ()
       = Some (Error Interrupted ''stop the syncer'')
   \<and> (rowsEventGroup canalWildcards Background ''insert'' tableUnnamed [] ! 1) ()
       = Some (Error Interrupted ''halt the syncer'')
   \<and> schedule [1, 0] 2
   \<and> processRowsEventHandler [1, 0] canalWildcards Background ''insert'' tableUnnamed []
       = Some (Error Interrupted ''halt the syncer'')"
proof -
  have u: "Table.Name tableUnnamed = []" by (simp add: tableUnnamed_def)
  have s10: "schedule [1, 0] 2" by (auto simp: schedule_def)
  note unnamed =
    processRowsEventHandler_unnamed_table [OF u, of canalWildcards Background "''insert''" "[]"]
  have l: "length (rowsEventGroup canalWildcards Background ''insert'' tableUnnamed []) = 2"
    using unnamed by (simp add: Let_def canalWildcards_at)
  have t: "(rowsEventGroup canalWildcards Background ''insert'' tableUnnamed [] ! i) () =
           (case Do ([handlerInterrupted, handlerHalt] ! i) (WithCancel Background) ''insert''
                   tableUnnamed [] of
              None \<Rightarrow> None
            | Some err \<Rightarrow> if errors_Is err Interrupted then Some err else None)"
    if "i < 2" for i
    using unnamed that by (simp add: Let_def canalWildcards_at)
  have p: "processRowsEventHandler sched canalWildcards Background ''insert'' tableUnnamed [] =
           firstErr (map (\<lambda>i. case Do ([handlerInterrupted, handlerHalt] ! i)
                                     (WithCancel Background) ''insert'' tableUnnamed [] of
                                None \<Rightarrow> None
                              | Some err \<Rightarrow> if errors_Is err Interrupted then Some err else None)
                       sched)"
    if "schedule sched 2" for sched
    using unnamed that by (simp add: Let_def canalWildcards_at numeral_2_eq_2)
  show ?thesis
    using u l t [of 0] t [of 1] s10 p [OF s10]
    by (simp add: Do_handlerInterrupted Do_handlerHalt errors_Is_def)
qed

subsection \<open>Registration\<close>

text \<open>
  C6. \<open>RegisterRowsEventHandler(F, H...)\<close> appends \<open>H\<close> to the list under \<open>F\<close>, keeping
  the handlers already there, and leaves the list of every other filter as it is.
  Registering a handler \<open>h\<close> twice under \<open>F\<close> puts it twice at the end of that list, and
  an event that \<open>F\<close> matches (\<open>F\<close> is empty or is the event's table name) then starts
  two more goroutines for \<open>h\<close> than before.
\<close>

theorem RegisterRowsEventHandler_appends:
  "fst (rsHandlersAt (RegisterRowsEventHandler F H c) F) = fst (rsHandlersAt c F) @ H
   \<and> (\<forall>G. G \<noteq> F \<longrightarrow> rsHandlersAt (RegisterRowsEventHandler F H c) G = rsHandlersAt c G)
   \<and> fst (rsHandlersAt (RegisterRowsEventHandler F [h] (RegisterRowsEventHandler F [h] c)) F)
       = fst (rsHandlersAt c F) @ [h, h]
   \<and> (F = [] \<or> Table.Name table = F \<longrightarrow>
        rowsEventGroup (RegisterRowsEventHandler F [h] (RegisterRowsEventHandler F [h] c))
            ctx0 action table rows
          = map (errGoFn (WithCancel ctx0) action table rows)
              (matchedHandlers (RegisterRowsEventHandler F [h] (RegisterRowsEventHandler F [h] c))
                 (Table.Name table))
        \<and> count_list
            (matchedHandlers (RegisterRowsEventHandler F [h] (RegisterRowsEventHandler F [h] c))
               (Table.Name table)) h
          = count_list (matchedHandlers c (Table.Name table)) h + 2)"
proof -
  let ?c2 = "RegisterRowsEventHandler F [h] (RegisterRowsEventHandler F [h] c)"
  have twice: "rsHandlersAt ?c2 F = (fst (rsHandlersAt c F) @ [h, h], True)"
    by (simp add: rsHandlersAt_Register_same)
  have other: "rsHandlersAt ?c2 G = rsHandlersAt c G" if "G \<noteq> F" for G
    using that by (simp add: rsHandlersAt_Register_other)
  have cnt: "count_list (matchedHandlers ?c2 (Table.Name table)) h
             = count_list (matchedHandlers c (Table.Name table)) h + 2"
    if "F = [] \<or> Table.Name table = F"
  proof (cases "F = []")
    case True
    then show ?thesis
      using twice other [of "Table.Name table"]
      by (cases "Table.Name table = []") (simp_all add: matchedHandlers_def)
  next
    case False
    with that have "Table.Name table = F" by simp
    with False show ?thesis
      using twice other [of "[]"] by (simp add: matchedHandlers_def)
  qed
  show ?thesis
    using twice cnt
    by (simp add: rsHandlersAt_Register_same rsHandlersAt_Register_other rowsEventGroup_eq)
qed

theorem RegisterRowsEventHandler_appends_witness:
  "fst (rsHandlersAt (RegisterRowsEventHandler ''orders'' [handlerSuccess] canalOrders) ''orders'')
     = [handlerSuccess, handlerSuccess]
   \<and> rsHandlersAt (RegisterRowsEventHandler ''orders'' [handlerSuccess] canalOrders) []
     = ([handlerOther], True)
   \<and> count_list
       (matchedHandlers
          (RegisterRowsEventHandler ''orders'' [handlerSuccess]
             (RegisterRowsEventHandler ''orders'' [handlerSuccess] canalEmpty))
          (Table.Name tableOrders)) handlerSuccess = 2"
proof -
  have n: "Table.Name tableOrders = ''orders''" by (simp add: tableOrders_def)
  have d: "[] \<noteq> ''orders''" by simp
  show ?thesis
    using RegisterRowsEventHandler_appends
            [of "''orders''" "[handlerSuccess]" canalOrders handlerSuccess tableOrders
               Background "''insert''" "[]"]
          RegisterRowsEventHandler_appends
            [of "''orders''" "[handlerSuccess]" canalEmpty handlerSuccess tableOrders
               Background "''insert''" "[]"]
          d
    by (simp add: canalOrders_at n canalEmpty_matched)
qed

subsection \<open>Flush\<close>

text \<open>
  C5. For every registry, every order in which \<open>range\<close> visits the map and every order
  in which the goroutines return, the flush starts one goroutine calling \<open>Complete\<close> for
  each entry of each filter's list (as many as there are registrations, not as many as
  there are filters), and it returns an error if and only if at least one \<open>Complete\<close>
  returned an error of kind \<open>Interrupted\<close>; the error it returns is of that kind, and
  errors of other kinds leave the result \<open>nil\<close>.
\<close>

theorem flushEventHandlers_verdict:
  assumes "mapRange ks c" and "schedule sched (length (flushGroup ks c ctx0))"
  shows "flushGroup ks c ctx0 =
           concat (map (\<lambda>k. map (completeFn (WithCancel ctx0) k) (fst (rsHandlersAt c k))) ks)
         \<and> length (flushGroup ks c ctx0) = (\<Sum>k\<in>mapKeys c. length (fst (rsHandlersAt c k)))
         \<and> (flushEventHandlers ks sched c ctx0 \<noteq> None \<longleftrightarrow>
              (\<exists>k\<in>mapKeys c. \<exists>h\<in>set (fst (rsHandlersAt c k)).
                 \<exists>err. Complete h (WithCancel ctx0) = Some err \<and> errors_Is err Interrupted))
         \<and> (\<forall>err. flushEventHandlers ks sched c ctx0 = Some err \<longrightarrow> errors_Is err Interrupted)"
proof -
  let ?g = "flushGroup ks c ctx0"
  let ?r = "flushEventHandlers ks sched c ctx0"
  from assms(1) have d: "distinct ks" and k: "set ks = mapKeys c"
    by (simp_all add: mapRange_def)
  have len: "length ?g = (\<Sum>k\<in>mapKeys c. length (fst (rsHandlersAt c k)))"
  proof -
    have "length ?g = sum_list (map (\<lambda>k. length (fst (rsHandlersAt c k))) ks)"
      by (simp add: flushGroup_eq length_concat comp_def)
    also have "\<dots> = (\<Sum>k\<in>set ks. length (fst (rsHandlersAt c k)))"
      using d by (rule sum_list_distinct_conv_sum_set)
    finally show ?thesis by (simp add: k)
  qed
  have fail: "?r \<noteq> None \<longleftrightarrow>
      (\<exists>k\<in>mapKeys c. \<exists>h\<in>set (fst (rsHandlersAt c k)).
         \<exists>err. Complete h (WithCancel ctx0) = Some err \<and> errors_Is err Interrupted)"
  proof -
    have "?r \<noteq> None \<longleftrightarrow> (\<exists>f\<in>set ?g. f () \<noteq> None)"
      using errgroup_Wait_None_iff [OF assms(2)]
      by (simp add: flushEventHandlers_def errors_Wrap_None_iff)
    also have "\<dots> \<longleftrightarrow> (\<exists>k\<in>set ks. \<exists>h\<in>set (fst (rsHandlersAt c k)).
                              completeFn (WithCancel ctx0) k h () \<noteq> None)"
      by (rule flushGroup_members)
    also have "\<dots> \<longleftrightarrow> (\<exists>k\<in>mapKeys c. \<exists>h\<in>set (fst (rsHandlersAt c k)).
         \<exists>err. Complete h (WithCancel ctx0) = Some err \<and> errors_Is err Interrupted)"
      by (simp only: k completeFn_fails_iff)
    finally show ?thesis .
  qed
  have kind: "errors_Is err Interrupted" if "?r = Some err" for err
  proof -
    from that obtain err0 where w: "errgroup_Wait sched ?g = Some err0" and "kind err = kind err0"
      unfolding flushEventHandlers_def by (blast dest: errors_Wrap_Some_kind)
    moreover from errgroup_Wait_Some_mem [OF assms(2) w]
    have "\<exists>k\<in>set ks. \<exists>h\<in>set (fst (rsHandlersAt c k)).
            completeFn (WithCancel ctx0) k h () = Some err0"
      by (auto simp: flushGroup_eq)
    then have "errors_Is err0 Interrupted"
      by (auto simp: completeFn_result split: option.splits if_splits)
    ultimately show ?thesis by (simp add: errors_Is_def)
  qed
  show ?thesis
    using len fail kind by (simp add: flushGroup_eq)
qed

theorem flushEventHandlers_verdict_witness:
  "mapRange [[], ''orders''] canalFlush
   \<and> schedule [2, 0, 1] (length (flushGroup [[], ''orders''] canalFlush Background))
   \<and> card (mapKeys canalFlush) = 2
   \<and> length (flushGroup [[], ''orders''] canalFlush Background) = 3
   \<and> flushEventHandlers [[], ''orders''] [2, 0, 1] canalFlush Background \<noteq> None"
proof -
  have r: "mapRange [[], ''orders''] canalFlush"
    by (auto simp: mapRange_def canalFlush_keys)
  have l: "length (flushGroup [[], ''orders''] canalFlush Background) = 3"
    by (simp add: flushGroup_eq canalFlush_at)
  have s: "schedule [2, 0, 1] (length (flushGroup [[], ''orders''] canalFlush Background))"
    unfolding l by (auto simp: schedule_def)
  have i: "Complete handlerInterrupted (WithCancel Background)
             = Some (Error Interrupted ''stop the syncer'')"
    by (simp add: handlerInterrupted_def)
  have "flushEventHandlers [[], ''orders''] [2, 0, 1] canalFlush Background \<noteq> None"
    using flushEventHandlers_verdict [OF r s] i
    by (auto simp: canalFlush_keys canalFlush_at errors_Is_def)
  with r s l show ?thesis by (simp add: canalFlush_keys)
qed


end
